theory Spec2Isabelle
  imports
    Complex_Main
    "HOL-Library.AList"
    "HOL-Library.Char_ord"
    "HOL-Library.List_Lexorder"
    "HOL-Library.Log_Nat"
    "HOL-Library.Multiset"
begin

section \<open>The cache layer of the review-analytics backend\<close>

text \<open>
  This theory embeds \<^verbatim>\<open>src/backend/redis_config.py\<close> (class \<^verbatim>\<open>RedisConfig\<close>) and
  \<^verbatim>\<open>src/backend/cache_utils.py\<close> (class \<^verbatim>\<open>CacheManager\<close>), together with the five
  cached component functions of \<^verbatim>\<open>src/backend/routes/dashboard.py\<close> that cache warming
  calls.

  The code is asynchronous Python; the model runs every coroutine to completion before
  the next one starts (one schedule of the event loop). What the code takes from
  libraries is not part of the repository and enters the model as follows:
  \<^item> the Redis server behind \<^verbatim>\<open>redis.asyncio\<close> is a small state machine
    (\<open>redis_server\<close>): the stored entries, a table saying which commands raise, and the
    server's glob matcher;
  \<^item> \<^verbatim>\<open>json.dumps(value, default=str)\<close> and \<^verbatim>\<open>json.loads\<close> are the two fields of a
    record \<open>json_module\<close>, a parameter of every function that serialises;
  \<^item> \<^verbatim>\<open>hashlib.md5(s.encode()).hexdigest()\<close> and Python's \<^verbatim>\<open>str\<close> on a parameter
    value are function parameters of \<open>generate_cache_key\<close>;
  \<^item> the fetch functions (database aggregations) are state transformers on an abstract
    world \<open>'w\<close>;
  \<^item> a finite Python float is the rational number it denotes; true division of
    integers, float multiplication and \<^verbatim>\<open>round\<close> round to the nearest double, ties to
    even, as IEEE 754 and CPython do (\<open>to_double\<close>).
  Time does not pass in the model: an entry written with a positive expiry is still
  there at the next call.
\<close>

subsection \<open>Python values and exceptions\<close>

text \<open>
  A Python object that may be \<^verbatim>\<open>None\<close> is an \<open>option\<close>: \<open>None\<close> is \<^verbatim>\<open>None\<close>.
  \<open>py_exception\<close> holds subclasses of \<^verbatim>\<open>Exception\<close>, which \<^verbatim>\<open>except Exception\<close> catches; a
  function that may raise one returns \<open>py_exception + 'a\<close>.
\<close>

datatype py_exception =
    TypeError string
  | RedisError string
  | Exception string
  | ZeroDivisionError string
  | OverflowError string

fun str_exception :: "py_exception \<Rightarrow> string" where
  "str_exception (TypeError m) = m"
| "str_exception (RedisError m) = m"
| "str_exception (Exception m) = m"
| "str_exception (ZeroDivisionError m) = m"
| "str_exception (OverflowError m) = m"

text \<open>
  What awaiting a coroutine can raise: an \<^verbatim>\<open>Exception\<close>, or \<^verbatim>\<open>asyncio.CancelledError\<close>,
  which is a \<^verbatim>\<open>BaseException\<close> and not an \<^verbatim>\<open>Exception\<close>: \<^verbatim>\<open>except Exception\<close> does not
  catch it and \<^verbatim>\<open>isinstance(r, Exception)\<close> is false of it. The commands of the Redis
  client and the library functions raise an \<^verbatim>\<open>Exception\<close> only.
\<close>

datatype base_exception = Exc py_exception | CancelledError string

text \<open>\<^verbatim>\<open>isinstance(r, Exception)\<close> on what a task returned or raised.\<close>

fun isinstance_Exception :: "base_exception + 'a \<Rightarrow> bool" where
  "isinstance_Exception (Inl (Exc e)) = True"
| "isinstance_Exception (Inl (CancelledError m)) = False"
| "isinstance_Exception (Inr v) = False"

record 'v json_module =
  dumps :: "'v option \<Rightarrow> py_exception + string"
  loads :: "string \<Rightarrow> py_exception + 'v option"

subsection \<open>The Redis server as the client sees it\<close>

datatype command =
    GET string
  | SETEX string int string
  | KEYS string
  | DEL "string list"
  | PING

text \<open>
  \<open>entries\<close> maps a key to its expiry in seconds and its text; \<open>fault c\<close> is the
  exception the client raises when it sends command \<open>c\<close> (connection lost, timeout), if
  any; \<open>glob pattern key\<close> is the server's matcher for \<^verbatim>\<open>KEYS\<close>.
\<close>

record redis_server =
  entries :: "(string \<times> int \<times> string) list"
  fault :: "command \<Rightarrow> py_exception option"
  glob :: "string \<Rightarrow> string \<Rightarrow> bool"

definition client_ping :: "redis_server \<Rightarrow> py_exception + unit" where
  "client_ping r = (case fault r PING of Some e \<Rightarrow> Inl e | None \<Rightarrow> Inr ())"

definition client_get :: "redis_server \<Rightarrow> string \<Rightarrow> py_exception + string option" where
  "client_get r key =
     (case fault r (GET key) of
        Some e \<Rightarrow> Inl e
      | None \<Rightarrow> Inr (map_option snd (map_of (entries r) key)))"

text \<open>The server rejects \<^verbatim>\<open>SETEX\<close> with an expiry that is not positive.\<close>

definition client_setex ::
  "redis_server \<Rightarrow> string \<Rightarrow> int \<Rightarrow> string \<Rightarrow> py_exception + redis_server" where
  "client_setex r key ttl text =
     (case fault r (SETEX key ttl text) of
        Some e \<Rightarrow> Inl e
      | None \<Rightarrow>
          if ttl \<le> 0 then Inl (RedisError ''invalid expire time in setex'')
          else Inr (r\<lparr>entries := AList.update key (ttl, text) (entries r)\<rparr>))"

definition client_keys :: "redis_server \<Rightarrow> string \<Rightarrow> py_exception + string list" where
  "client_keys r pattern =
     (case fault r (KEYS pattern) of
        Some e \<Rightarrow> Inl e
      | None \<Rightarrow> Inr (filter (glob r pattern) (map fst (entries r))))"

definition client_delete ::
  "redis_server \<Rightarrow> string list \<Rightarrow> py_exception + (int \<times> redis_server)" where
  "client_delete r keys =
     (case fault r (DEL keys) of
        Some e \<Rightarrow> Inl e
      | None \<Rightarrow>
          Inr (int (length (filter (\<lambda>kv. fst kv \<in> set keys) (entries r))),
               r\<lparr>entries := filter (\<lambda>kv. fst kv \<notin> set keys) (entries r)\<rparr>))"

subsection \<open>RedisConfig\<close>

record RedisConfig =
  redis_url :: string
  redis_client :: "redis_server option"
  default_ttl :: int
  component_ttl :: int

text \<open>\<^verbatim>\<open>__init__\<close>; the URL comes from the environment.\<close>

definition RedisConfig_init :: "string \<Rightarrow> RedisConfig" where
  "RedisConfig_init url =
     \<lparr>redis_url = url, redis_client = None, default_ttl = 600, component_ttl = 1800\<rparr>"

text \<open>\<^verbatim>\<open>connect\<close>: \<open>server\<close> is the server that answers at the URL.\<close>

definition connect :: "RedisConfig \<Rightarrow> redis_server \<Rightarrow> (py_exception + unit) \<times> RedisConfig" where
  "connect c server =
     (case client_ping server of
        Inl e \<Rightarrow> (Inl e, c\<lparr>redis_client := None\<rparr>)
      | Inr _ \<Rightarrow> (Inr (), c\<lparr>redis_client := Some server\<rparr>))"

text \<open>\<^verbatim>\<open>"&".join(items)\<close>\<close>

fun join_amp :: "string list \<Rightarrow> string" where
  "join_amp [] = []"
| "join_amp [x] = x"
| "join_amp (x # y # ys) = x @ CHR ''&'' # join_amp (y # ys)"

text \<open>
  \<^verbatim>\<open>generate_cache_key(prefix, **kwargs)\<close>. The keyword arguments are a dict, here a list of
  (name, value) pairs with distinct names; \<^verbatim>\<open>sorted(kwargs.items())\<close> then orders by
  name alone. \<open>str\<close> renders a value as the f-string does.
\<close>

definition param_string :: "('a \<Rightarrow> string) \<Rightarrow> (string \<times> 'a option) list \<Rightarrow> string" where
  "param_string str kwargs =
     (let sorted_params = sort_key fst kwargs
      in join_amp (map (\<lambda>kv. fst kv @ CHR ''='' # str (the (snd kv)))
                       (filter (\<lambda>kv. snd kv \<noteq> None) sorted_params)))"

definition generate_cache_key ::
  "(string \<Rightarrow> string) \<Rightarrow> ('a \<Rightarrow> string) \<Rightarrow> string \<Rightarrow> (string \<times> 'a option) list \<Rightarrow> string" where
  "generate_cache_key md5 str prefix kwargs =
     (let hash_hex = md5 (param_string str kwargs)
      in prefix @ CHR '':'' # hash_hex)"

text \<open>The items of a dict whose value is not \<^verbatim>\<open>None\<close>.\<close>

definition present :: "(string \<times> 'a option) list \<Rightarrow> (string \<times> 'a option) list" where
  "present kwargs = filter (\<lambda>kv. snd kv \<noteq> None) kwargs"

text \<open>\<^verbatim>\<open>get\<close>: every failure is a miss (\<^verbatim>\<open>None\<close>).\<close>

definition RedisConfig_get :: "'v json_module \<Rightarrow> RedisConfig \<Rightarrow> string \<Rightarrow> 'v option" where
  "RedisConfig_get J c key =
     (case redis_client c of
        None \<Rightarrow> None
      | Some r \<Rightarrow>
          (case client_get r key of
             Inl e \<Rightarrow> None
           | Inr cached_data \<Rightarrow>
               (case cached_data of
                  None \<Rightarrow> None
                | Some text \<Rightarrow>
                    if text \<noteq> [] then
                      (case loads J text of Inl e \<Rightarrow> None | Inr v \<Rightarrow> v)
                    else None)))"

text \<open>Python's \<^verbatim>\<open>x or d\<close> on an optional integer: \<^verbatim>\<open>None\<close> and 0 are falsy.\<close>

definition py_or :: "int option \<Rightarrow> int \<Rightarrow> int" where
  "py_or x d = (case x of None \<Rightarrow> d | Some t \<Rightarrow> if t = 0 then d else t)"

text \<open>\<^verbatim>\<open>set\<close>: any failure gives \<^verbatim>\<open>False\<close>.\<close>

definition RedisConfig_set ::
  "'v json_module \<Rightarrow> RedisConfig \<Rightarrow> string \<Rightarrow> 'v option \<Rightarrow> int option \<Rightarrow> bool \<times> RedisConfig" where
  "RedisConfig_set J c key val ttl =
     (case redis_client c of
        None \<Rightarrow> (False, c)
      | Some r \<Rightarrow>
          (let ttl' = py_or ttl (default_ttl c)
           in case dumps J val of
                Inl e \<Rightarrow> (False, c)
              | Inr serialized_value \<Rightarrow>
                  (case client_setex r key ttl' serialized_value of
                     Inl e \<Rightarrow> (False, c)
                   | Inr r' \<Rightarrow> (True, c\<lparr>redis_client := Some r'\<rparr>))))"

definition delete_pattern :: "RedisConfig \<Rightarrow> string \<Rightarrow> int \<times> RedisConfig" where
  "delete_pattern c pattern =
     (case redis_client c of
        None \<Rightarrow> (0, c)
      | Some r \<Rightarrow>
          (case client_keys r pattern of
             Inl e \<Rightarrow> (0, c)
           | Inr keys \<Rightarrow>
               if keys \<noteq> [] then
                 (case client_delete r keys of
                    Inl e \<Rightarrow> (0, c)
                  | Inr (deleted_count, r') \<Rightarrow> (deleted_count, c\<lparr>redis_client := Some r'\<rparr>))
               else (0, c)))"

definition patterns :: "string \<Rightarrow> string list" where
  "patterns parent_asin =
     [''dashboard:*'' @ parent_asin @ ''*'',
      ''summary:*'' @ parent_asin @ ''*'',
      ''wordcloud:*'' @ parent_asin @ ''*'',
      ''timeline:*'' @ parent_asin @ ''*'',
      ''distribution:*'' @ parent_asin @ ''*'',
      ''sentiment_map:*'' @ parent_asin @ ''*'']"

text \<open>The loop of \<^verbatim>\<open>RedisConfig.invalidate_product_cache\<close> over the patterns.\<close>

fun delete_patterns :: "string list \<Rightarrow> int \<Rightarrow> RedisConfig \<Rightarrow> int \<times> RedisConfig" where
  "delete_patterns [] total_deleted c = (total_deleted, c)"
| "delete_patterns (pattern # ps) total_deleted c =
     (let (deleted, c') = delete_pattern c pattern
      in delete_patterns ps (total_deleted + deleted) c')"

definition RedisConfig_invalidate_product_cache :: "RedisConfig \<Rightarrow> string \<Rightarrow> int \<times> RedisConfig" where
  "RedisConfig_invalidate_product_cache c parent_asin = delete_patterns (patterns parent_asin) 0 c"

text \<open>
  Doubles. \<open>round_half_even\<close> rounds a rational to the nearest integer, a tie to the even
  one. \<open>floorlog2 a\<close> is the binary exponent of a positive rational, the floor of its binary logarithm, from
  the bit lengths of its numerator and denominator. \<open>to_double x\<close> is the double nearest
  to \<open>x\<close>: 53 significant bits, and no bit below 2 to the power -1074 (subnormal numbers);
  \<open>overflows d\<close> says that the rounded value has left the range of the finite doubles
  (its magnitude is at least 2 to the power 1024).
\<close>

definition round_half_even :: "rat \<Rightarrow> int" where
  "round_half_even y =
     (let f = \<lfloor>y\<rfloor>; d = y - of_int f
      in if d < 1 / 2 then f
         else if 1 / 2 < d then f + 1
         else if even f then f else f + 1)"

definition floorlog2 :: "rat \<Rightarrow> int" where
  "floorlog2 a =
     (let (p, q) = quotient_of a; k = bitlen p - bitlen q
      in if 2 powi k \<le> a then k else k - 1)"

definition to_double :: "rat \<Rightarrow> rat" where
  "to_double x =
     (if x = 0 then 0
      else let a = \<bar>x\<bar>;
               e = max (floorlog2 a - 52) (- 1074);
               m = round_half_even (a / 2 powi e)
           in sgn x * (of_int m * 2 powi e))"

definition overflows :: "rat \<Rightarrow> bool" where
  "overflows d = (d \<noteq> 0 \<and> 1024 \<le> floorlog2 \<bar>d\<bar>)"

datatype pyfloat = Finite rat | Inf | NegInf

text \<open>The result of a float operation whose exact value is \<open>x\<close>.\<close>

definition round_to_double :: "rat \<Rightarrow> pyfloat" where
  "round_to_double x =
     (let d = to_double x
      in if overflows d then (if 0 < x then Inf else NegInf) else Finite d)"

text \<open>\<^verbatim>\<open>a / b\<close> on two Python integers: correctly rounded, or an exception.\<close>

definition int_truediv :: "int \<Rightarrow> int \<Rightarrow> py_exception + rat" where
  "int_truediv a b =
     (if b = 0 then Inl (ZeroDivisionError ''division by zero'')
      else let d = to_double (of_int a / of_int b)
           in if overflows d
              then Inl (OverflowError ''integer division result too large for a float'')
              else Inr d)"

text \<open>
  \<^verbatim>\<open>round(x, 2)\<close> on a float: CPython rounds the exact value of the double to two
  decimals, a tie to the even one (\<open>round2\<close>), and converts the decimal back to the
  nearest double; an infinity is returned as it is.
\<close>

definition round2 :: "rat \<Rightarrow> rat" where
  "round2 x = of_int (round_half_even (x * 100)) / 100"

definition py_round2 :: "pyfloat \<Rightarrow> pyfloat" where
  "py_round2 x =
     (case x of Finite a \<Rightarrow> Finite (to_double (round2 a)) | Inf \<Rightarrow> Inf | NegInf \<Rightarrow> NegInf)"

definition calculate_hit_rate :: "int \<Rightarrow> int \<Rightarrow> py_exception + pyfloat" where
  "calculate_hit_rate hits misses =
     (let total = hits + misses
      in if total = 0 then Inr (Finite 0)
         else (case int_truediv hits total of
                 Inl e \<Rightarrow> Inl e
               | Inr q \<Rightarrow> Inr (py_round2 (round_to_double (q * 100)))))"

subsection \<open>CacheManager\<close>

text \<open>
  The manager holds the one \<open>RedisConfig\<close> of the process. \<open>world\<close> is what the fetch
  functions read and change (the database); \<open>fetch_calls\<close> counts the calls of a fetch
  function and is not a variable of the program; \<open>gather_fault\<close> is the \<^verbatim>\<open>Exception\<close>
  that \<^verbatim>\<open>asyncio.gather\<close> itself raises, if the event loop cannot schedule the tasks.
\<close>

record 'w system =
  redis :: RedisConfig
  world :: 'w
  fetch_calls :: nat
  gather_fault :: "py_exception option"

type_synonym ('v, 'w) fetch_function = "'w \<Rightarrow> (base_exception + 'v option) \<times> 'w"

type_synonym ('v, 'w) coroutine = "'w system \<Rightarrow> (base_exception + 'v option) \<times> 'w system"

text \<open>
  \<^verbatim>\<open>cache_with_fallback\<close>. What the fetch function raises leaves the call: an
  \<^verbatim>\<open>Exception\<close> is logged and raised again by the handler, a \<^verbatim>\<open>CancelledError\<close> passes it.
\<close>

definition cache_with_fallback ::
  "'v json_module \<Rightarrow> string \<Rightarrow> ('v, 'w) fetch_function \<Rightarrow> int option \<Rightarrow> ('v, 'w) coroutine" where
  "cache_with_fallback J cache_key fetch_function ttl st =
     (case RedisConfig_get J (redis st) cache_key of
        Some cached_data \<Rightarrow> (Inr (Some cached_data), st)
      | None \<Rightarrow>
          (case fetch_function (world st) of
             (Inl e, w) \<Rightarrow> (Inl e, st\<lparr>world := w, fetch_calls := Suc (fetch_calls st)\<rparr>)
           | (Inr fresh_data, w) \<Rightarrow>
               (let st1 = st\<lparr>world := w, fetch_calls := Suc (fetch_calls st)\<rparr>
                in if fresh_data \<noteq> None then
                     (Inr fresh_data,
                      st1\<lparr>redis := snd (RedisConfig_set J (redis st1) cache_key fresh_data ttl)\<rparr>)
                   else (Inr fresh_data, st1))))"

text \<open>
  A dict the program builds and returns is the list of its items; a value is a string
  or an integer.
\<close>

datatype field = S string | I int

type_synonym report = "(string \<times> field) list"

text \<open>
  \<^verbatim>\<open>RedisConfig.invalidate_product_cache\<close> as the manager calls it inside \<^verbatim>\<open>try\<close>:
  \<open>delete_pattern\<close> has caught every exception, so the call always returns.
\<close>

definition invalidate_call :: "RedisConfig \<Rightarrow> string \<Rightarrow> (py_exception + int) \<times> RedisConfig" where
  "invalidate_call c parent_asin =
     (let (total_deleted, c') = RedisConfig_invalidate_product_cache c parent_asin
      in (Inr total_deleted, c'))"

text \<open>\<open>now\<close> is \<^verbatim>\<open>datetime.utcnow().isoformat()\<close>.\<close>

definition CacheManager_invalidate_product_cache ::
  "string \<Rightarrow> string \<Rightarrow> 'w system \<Rightarrow> report \<times> 'w system" where
  "CacheManager_invalidate_product_cache now parent_asin st =
     (case invalidate_call (redis st) parent_asin of
        (Inr deleted_count, c') \<Rightarrow>
          ([(''product'', S parent_asin),
            (''deleted_keys'', I deleted_count),
            (''status'', S ''success''),
            (''timestamp'', S now)],
           st\<lparr>redis := c'\<rparr>)
      | (Inl e, c') \<Rightarrow>
          ([(''product'', S parent_asin),
            (''deleted_keys'', I 0),
            (''status'', S ''error''),
            (''error'', S (str_exception e)),
            (''timestamp'', S now)],
           st\<lparr>redis := c'\<rparr>))"

subsection \<open>The cached components of the dashboard, and cache warming\<close>

text \<open>
  Keyword arguments: names with values that are a \<^verbatim>\<open>str\<close> or \<^verbatim>\<open>None\<close>, as the
  components declare their parameters (\<^verbatim>\<open>Optional[str]\<close>). \<open>bind_arguments\<close> is the
  call \<^verbatim>\<open>f(**kwargs)\<close> of a function whose parameters are \<open>formals\<close> (a name, and its
  default when it has one): an unknown name or a missing required one raises
  \<^verbatim>\<open>TypeError\<close>.
\<close>

type_synonym kwargs = "(string \<times> string option) list"

definition bind_arguments ::
  "(string \<times> string option option) list \<Rightarrow> kwargs \<Rightarrow> py_exception + kwargs" where
  "bind_arguments formals kw =
     (if list_ex (\<lambda>k. k \<notin> set (map fst formals)) (map fst kw)
        then Inl (TypeError ''got an unexpected keyword argument'')
      else if list_ex (\<lambda>f. snd f = None \<and> fst f \<notin> set (map fst kw)) formals
        then Inl (TypeError ''missing a required positional argument'')
      else Inr (map (\<lambda>f. (fst f, case map_of kw (fst f) of Some v \<Rightarrow> v | None \<Rightarrow> the (snd f)))
                    formals))"

text \<open>The \<^verbatim>\<open>_fetch_*\<close> functions of the dashboard routes: database aggregations.\<close>

record ('v, 'w) fetchers =
  fetch_summary_statistics :: "kwargs \<Rightarrow> ('v, 'w) fetch_function"
  fetch_word_cloud_data :: "kwargs \<Rightarrow> ('v, 'w) fetch_function"
  fetch_sentiment_timeline :: "kwargs \<Rightarrow> ('v, 'w) fetch_function"
  fetch_sentiment_distribution :: "kwargs \<Rightarrow> ('v, 'w) fetch_function"
  fetch_sentiment_map :: "kwargs \<Rightarrow> ('v, 'w) fetch_function"

definition component_formals :: "(string \<times> string option option) list" where
  "component_formals =
     [(''parent_asin'', None), (''start_date'', Some None),
      (''end_date'', Some None), (''cities'', Some None)]"

definition distribution_formals :: "(string \<times> string option option) list" where
  "distribution_formals =
     [(''parent_asin'', None), (''period'', Some (Some ''year'')), (''start_date'', Some None),
      (''end_date'', Some None), (''cities'', Some None)]"

text \<open>
  Calling an \<^verbatim>\<open>async def\<close> binds the arguments and returns the coroutine; its body runs
  when it is awaited.
\<close>

definition get_summary_statistics_cached ::
  "'v json_module \<Rightarrow> (string \<Rightarrow> string) \<Rightarrow> ('v, 'w) fetchers \<Rightarrow> kwargs
   \<Rightarrow> py_exception + ('v, 'w) coroutine" where
  "get_summary_statistics_cached J md5 F kw =
     (case bind_arguments component_formals kw of
        Inl e \<Rightarrow> Inl e
      | Inr args \<Rightarrow>
          Inr (\<lambda>st. cache_with_fallback J (generate_cache_key md5 id ''summary'' args)
                      (fetch_summary_statistics F args) (Some (component_ttl (redis st))) st))"

definition get_word_cloud_data_cached ::
  "'v json_module \<Rightarrow> (string \<Rightarrow> string) \<Rightarrow> ('v, 'w) fetchers \<Rightarrow> kwargs
   \<Rightarrow> py_exception + ('v, 'w) coroutine" where
  "get_word_cloud_data_cached J md5 F kw =
     (case bind_arguments component_formals kw of
        Inl e \<Rightarrow> Inl e
      | Inr args \<Rightarrow>
          Inr (\<lambda>st. cache_with_fallback J (generate_cache_key md5 id ''wordcloud'' args)
                      (fetch_word_cloud_data F args) (Some (component_ttl (redis st))) st))"

definition get_sentiment_timeline_cached ::
  "'v json_module \<Rightarrow> (string \<Rightarrow> string) \<Rightarrow> ('v, 'w) fetchers \<Rightarrow> kwargs
   \<Rightarrow> py_exception + ('v, 'w) coroutine" where
  "get_sentiment_timeline_cached J md5 F kw =
     (case bind_arguments component_formals kw of
        Inl e \<Rightarrow> Inl e
      | Inr args \<Rightarrow>
          Inr (\<lambda>st. cache_with_fallback J (generate_cache_key md5 id ''timeline'' args)
                      (fetch_sentiment_timeline F args) (Some (component_ttl (redis st))) st))"

definition get_sentiment_distribution_cached ::
  "'v json_module \<Rightarrow> (string \<Rightarrow> string) \<Rightarrow> ('v, 'w) fetchers \<Rightarrow> kwargs
   \<Rightarrow> py_exception + ('v, 'w) coroutine" where
  "get_sentiment_distribution_cached J md5 F kw =
     (case bind_arguments distribution_formals kw of
        Inl e \<Rightarrow> Inl e
      | Inr args \<Rightarrow>
          Inr (\<lambda>st. cache_with_fallback J (generate_cache_key md5 id ''distribution'' args)
                      (fetch_sentiment_distribution F args) (Some (component_ttl (redis st))) st))"

definition get_sentiment_map_cached ::
  "'v json_module \<Rightarrow> (string \<Rightarrow> string) \<Rightarrow> ('v, 'w) fetchers \<Rightarrow> kwargs
   \<Rightarrow> py_exception + ('v, 'w) coroutine" where
  "get_sentiment_map_cached J md5 F kw =
     (case bind_arguments component_formals kw of
        Inl e \<Rightarrow> Inl e
      | Inr args \<Rightarrow>
          Inr (\<lambda>st. cache_with_fallback J (generate_cache_key md5 id ''sentiment_map'' args)
                      (fetch_sentiment_map F args) (Some (component_ttl (redis st))) st))"

text \<open>\<^verbatim>\<open>f(period=p, **base_params)\<close>: a second value for \<^verbatim>\<open>period\<close> raises.\<close>

definition call_with_period ::
  "(kwargs \<Rightarrow> py_exception + 'c) \<Rightarrow> string \<Rightarrow> kwargs \<Rightarrow> py_exception + 'c" where
  "call_with_period f p base_params =
     (if ''period'' \<in> set (map fst base_params)
        then Inl (TypeError ''got multiple values for keyword argument period'')
      else f ((''period'', Some p) # base_params))"

text \<open>\<^verbatim>\<open>d.update(u)\<close>\<close>

definition dict_update :: "kwargs \<Rightarrow> kwargs \<Rightarrow> kwargs" where
  "dict_update d u = fold (\<lambda>kv. AList.update (fst kv) (snd kv)) u d"

text \<open>A list display evaluates its elements in order; the first that raises ends it.\<close>

fun first_raise :: "(py_exception + 'a) list \<Rightarrow> py_exception + 'a list" where
  "first_raise [] = Inr []"
| "first_raise (Inl e # xs) = Inl e"
| "first_raise (Inr x # xs) = (case first_raise xs of Inl e \<Rightarrow> Inl e | Inr ys \<Rightarrow> Inr (x # ys))"

definition warming_tasks ::
  "'v json_module \<Rightarrow> (string \<Rightarrow> string) \<Rightarrow> ('v, 'w) fetchers \<Rightarrow> kwargs
   \<Rightarrow> py_exception + ('v, 'w) coroutine list" where
  "warming_tasks J md5 F base_params =
     first_raise
       [get_summary_statistics_cached J md5 F base_params,
        get_word_cloud_data_cached J md5 F base_params,
        get_sentiment_timeline_cached J md5 F base_params,
        call_with_period (get_sentiment_distribution_cached J md5 F) ''year'' base_params,
        call_with_period (get_sentiment_distribution_cached J md5 F) ''month'' base_params,
        get_sentiment_map_cached J md5 F base_params]"

text \<open>
  \<^verbatim>\<open>asyncio.gather(*tasks, return_exceptions=True)\<close>: every task runs, and what a task
  raised is its entry in the list of results. The tasks run in the order of the list;
  when \<^verbatim>\<open>gather\<close> itself raises, none has run.
\<close>

fun run_tasks ::
  "('v, 'w) coroutine list \<Rightarrow> 'w system \<Rightarrow> (base_exception + 'v option) list \<times> 'w system" where
  "run_tasks [] st = ([], st)"
| "run_tasks (t # ts) st =
     (let (r, st1) = t st; (rs, st2) = run_tasks ts st1 in (r # rs, st2))"

definition gather ::
  "('v, 'w) coroutine list \<Rightarrow> 'w system
   \<Rightarrow> (py_exception + (base_exception + 'v option) list) \<times> 'w system" where
  "gather tasks st =
     (case gather_fault st of
        Some e \<Rightarrow> (Inl e, st)
      | None \<Rightarrow> (let (results, st') = run_tasks tasks st in (Inr results, st')))"

text \<open>
  \<^verbatim>\<open>base_params = {"parent_asin": parent_asin}\<close>, updated with \<^verbatim>\<open>date_range\<close> when that
  is given and not empty.
\<close>

definition base_params_of :: "string \<Rightarrow> kwargs option \<Rightarrow> kwargs" where
  "base_params_of parent_asin date_range =
     (let base_params = [(''parent_asin'', Some parent_asin)]
      in case date_range of
           None \<Rightarrow> base_params
         | Some d \<Rightarrow> if d \<noteq> [] then dict_update base_params d else base_params)"


text \<open>
  The tasks are created before the \<^verbatim>\<open>try\<close> block: a \<^verbatim>\<open>TypeError\<close> of a call leaves
  \<open>warm_cache_for_product\<close> as an exception. Inside the block, the results are counted.
\<close>

definition warm_cache_for_product ::
  "'v json_module \<Rightarrow> (string \<Rightarrow> string) \<Rightarrow> ('v, 'w) fetchers \<Rightarrow> string \<Rightarrow> kwargs option
   \<Rightarrow> 'w system \<Rightarrow> (py_exception + report) \<times> 'w system" where
  "warm_cache_for_product J md5 F parent_asin date_range st =
     (let base_params = base_params_of parent_asin date_range
      in case warming_tasks J md5 F base_params of
           Inl e \<Rightarrow> (Inl e, st)
         | Inr tasks \<Rightarrow>
             (case gather tasks st of
                (Inr results, st') \<Rightarrow>
                  (let successful = int (length (filter (\<lambda>r. \<not> isinstance_Exception r) results));
                       failed = int (length results) - successful
                   in (Inr [(''product'', S parent_asin),
                            (''successful'', I successful),
                            (''failed'', I failed),
                            (''total'', I (int (length results)))],
                       st'))
              | (Inl e, st') \<Rightarrow>
                  (Inr [(''product'', S parent_asin),
                        (''successful'', I 0),
                        (''failed'', I (int (length tasks))),
                        (''error'', S (str_exception e))],
                   st')))"

subsection \<open>Concrete libraries, servers and fetch functions\<close>

text \<open>
  Instances of the library parameters on which the theorems below are evaluated: JSON
  restricted to strings without escapes and \<^verbatim>\<open>null\<close>, a glob matcher that knows \<^verbatim>\<open>*\<close>,
  and a digest of width 32 that cuts or pads its input.
\<close>

definition string_json :: "string json_module" where
  "string_json =
     \<lparr>dumps = (\<lambda>v. case v of None \<Rightarrow> Inr ''null''
                    | Some s \<Rightarrow> Inr (CHR 0x22 # s @ [CHR 0x22])),
      loads = (\<lambda>t. if t = ''null'' then Inr None
                    else if 2 \<le> length t \<and> hd t = CHR 0x22 \<and> last t = CHR 0x22
                      then Inr (Some (butlast (tl t)))
                    else Inl (Exception ''JSONDecodeError''))\<rparr>"

fun tails :: "'a list \<Rightarrow> 'a list list" where
  "tails [] = [[]]"
| "tails (x # xs) = (x # xs) # tails xs"

fun star_glob :: "string \<Rightarrow> string \<Rightarrow> bool" where
  "star_glob [] k = (k = [])"
| "star_glob (p # ps) k =
     (if p = CHR ''*'' then list_ex (star_glob ps) (tails k)
      else (case k of [] \<Rightarrow> False | c # cs \<Rightarrow> c = p \<and> star_glob ps cs))"

definition padded_digest :: "string \<Rightarrow> string" where
  "padded_digest s = take 32 (s @ replicate 32 (CHR ''0''))"

definition healthy_server :: "(string \<times> int \<times> string) list \<Rightarrow> redis_server" where
  "healthy_server es =
     \<lparr>entries = es, fault = (\<lambda>c. None), glob = star_glob\<rparr>"



definition connected :: "redis_server \<Rightarrow> RedisConfig" where
  "connected server = snd (connect (RedisConfig_init ''redis://localhost:6379'') server)"

definition system_of :: "RedisConfig \<Rightarrow> 'w \<Rightarrow> 'w system" where
  "system_of c w = \<lparr>redis = c, world = w, fetch_calls = 0, gather_fault = None\<rparr>"

text \<open>
  Fetch functions over a world that is the list of answers the database will give:
  \<open>fetch_next\<close> returns the next answer, \<open>fetch_fails\<close> raises an \<^verbatim>\<open>Exception\<close>,
  \<open>fetch_cancelled\<close> is cancelled, \<open>fetch_nothing\<close> finds no data.
\<close>

definition fetch_next :: "(string, string list) fetch_function" where
  "fetch_next w = (case w of [] \<Rightarrow> (Inr None, []) | x # xs \<Rightarrow> (Inr (Some x), xs))"

definition fetch_fails :: "(string, string list) fetch_function" where
  "fetch_fails w = (Inl (Exc (Exception ''database unavailable'')), w)"

definition fetch_cancelled :: "(string, string list) fetch_function" where
  "fetch_cancelled w = (Inl (CancelledError []), w)"

definition fetch_nothing :: "(string, string list) fetch_function" where
  "fetch_nothing w = (Inr None, w)"


definition one_cancelled :: "(string, string list) fetchers" where
  "one_cancelled =
     \<lparr>fetch_summary_statistics = (\<lambda>kw. fetch_next),
      fetch_word_cloud_data = (\<lambda>kw. fetch_cancelled),
      fetch_sentiment_timeline = (\<lambda>kw. fetch_next),
      fetch_sentiment_distribution = (\<lambda>kw. fetch_next),
      fetch_sentiment_map = (\<lambda>kw. fetch_next)\<rparr>"

text \<open>
  \<open>without_redis\<close>: the application started while Redis was down (\<^verbatim>\<open>connect\<close> was never
  successful, the lifespan handler of \<^verbatim>\<open>main.py\<close> continues without cache).
  \<open>with_redis\<close>: it started against an empty, healthy server.
\<close>

definition without_redis :: "string list system" where
  "without_redis = system_of (RedisConfig_init ''redis://localhost:6379'') [''a'', ''b'']"

definition with_redis :: "string list system" where
  "with_redis = system_of (connected (healthy_server [])) [''a'', ''b'']"

text \<open>
  Three stores with entries of products \<^verbatim>\<open>B01\<close> and \<^verbatim>\<open>B02\<close>: a healthy one, one whose
  \<^verbatim>\<open>KEYS\<close> times out for the summary pattern of \<^verbatim>\<open>B01\<close>, and one whose \<^verbatim>\<open>DEL\<close> of
  the summary key of \<^verbatim>\<open>B01\<close> times out.
\<close>

definition product_entries :: "(string \<times> int \<times> string) list" where
  "product_entries =
     [(''summary:B01'', 1800, ''1''), (''timeline:B01'', 1800, ''2''),
      (''summary:B02'', 1800, ''3'')]"

definition healthy_store :: "string list system" where
  "healthy_store = system_of (connected (healthy_server product_entries)) []"



section \<open>Properties\<close>

subsection \<open>Unfolding the concrete instances\<close>

lemmas sample_defs = without_redis_def with_redis_def system_of_def connected_def connect_def
  client_ping_def healthy_server_def RedisConfig_init_def string_json_def fetch_next_def
  fetch_fails_def fetch_nothing_def

lemmas exec_defs = cache_with_fallback_def RedisConfig_get_def RedisConfig_set_def py_or_def
  client_get_def client_setex_def

subsection \<open>Fetch or compute\<close>

lemma cache_hit:
  "RedisConfig_get J (redis st) key = Some v \<Longrightarrow>
   cache_with_fallback J key fetch ttl st = (Inr (Some v), st)"
  by (simp add: cache_with_fallback_def)

lemma cache_miss_raise:
  "RedisConfig_get J (redis st) key = None \<Longrightarrow> fetch (world st) = (Inl e, w) \<Longrightarrow>
   cache_with_fallback J key fetch ttl st =
     (Inl e, st\<lparr>world := w, fetch_calls := Suc (fetch_calls st)\<rparr>)"
  by (simp add: cache_with_fallback_def)

lemma cache_miss_none:
  "RedisConfig_get J (redis st) key = None \<Longrightarrow> fetch (world st) = (Inr None, w) \<Longrightarrow>
   cache_with_fallback J key fetch ttl st =
     (Inr None, st\<lparr>world := w, fetch_calls := Suc (fetch_calls st)\<rparr>)"
  by (simp add: cache_with_fallback_def)

lemma cache_miss_value:
  "RedisConfig_get J (redis st) key = None \<Longrightarrow> fetch (world st) = (Inr (Some v), w) \<Longrightarrow>
   cache_with_fallback J key fetch ttl st =
     (Inr (Some v),
      st\<lparr>world := w, fetch_calls := Suc (fetch_calls st),
         redis := snd (RedisConfig_set J (redis st) key (Some v) ttl)\<rparr>)"
  by (simp add: cache_with_fallback_def Let_def)

lemma cache_miss_calls:
  assumes "RedisConfig_get J (redis st) key = None"
  shows "fetch_calls (snd (cache_with_fallback J key fetch ttl st)) = Suc (fetch_calls st)"
proof (cases "fetch (world st)")
  case (Pair res w)
  show ?thesis
  proof (cases res)
    case (Inl e)
    with Pair assms show ?thesis by (simp add: cache_miss_raise)
  next
    case (Inr fresh)
    with Pair assms show ?thesis
      by (cases fresh) (simp_all add: cache_miss_none cache_miss_value)
  qed
qed

lemma set_success:
  assumes "redis_client c = Some r" "dumps J val = Inr s"
    and "fault r (SETEX key (py_or ttl (default_ttl c)) s) = None" "0 < py_or ttl (default_ttl c)"
  shows "RedisConfig_set J c key val ttl =
           (True, c\<lparr>redis_client := Some (r\<lparr>entries :=
              AList.update key (py_or ttl (default_ttl c), s) (entries r)\<rparr>)\<rparr>)"
  using assms by (simp add: RedisConfig_set_def client_setex_def Let_def)

lemma set_failure_unchanged:
  "fst (RedisConfig_set J c key val ttl) = False \<Longrightarrow> snd (RedisConfig_set J c key val ttl) = c"
  by (auto simp: RedisConfig_set_def Let_def split: option.splits sum.splits)

lemma get_after_write:
  assumes "fault r (GET key) = None" "s \<noteq> []"
  shows "RedisConfig_get J (c\<lparr>redis_client := Some (r\<lparr>entries := AList.update key (t, s) (entries r)\<rparr>)\<rparr>) key
         = (case loads J s of Inl e \<Rightarrow> None | Inr v \<Rightarrow> v)"
  using assms by (simp add: RedisConfig_get_def client_get_def update_conv')

lemma set_then_get:
  assumes "redis_client c = Some r" "\<forall>cmd. fault r cmd = None"
    and "0 < py_or ttl (default_ttl c)"
    and "dumps J (Some v) = Inr s" "s \<noteq> []" "loads J s = Inr (Some v)"
  shows "RedisConfig_get J (snd (RedisConfig_set J c key (Some v) ttl)) key = Some v"
  using assms by (simp add: set_success get_after_write)

text \<open>
  Claim C1, as the code has it. A hit returns the cached value and leaves the whole state
  as it was, so the producer is not invoked. On a miss the producer is invoked once, and
  a value that is not \<^verbatim>\<open>None\<close> is passed to \<open>set\<close> under the key with the given ttl and
  returned. If the store is connected, none of its commands raises, the expiry that
  \<open>set\<close> computes is positive and the value survives \<^verbatim>\<open>loads(dumps(v))\<close>, then after a call
  that returned a value \<open>v\<close> a second call returns \<open>v\<close> again, changes nothing and invokes
  no producer, and the first call invoked it at most once.
\<close>

theorem cache_with_fallback_idempotent_when_written:
  "(RedisConfig_get J (redis st) key = Some u \<longrightarrow>
      cache_with_fallback J key fetch ttl st = (Inr (Some u), st))
   \<and> (RedisConfig_get J (redis st) key = None \<and> fetch (world st) = (Inr (Some v), w) \<longrightarrow>
      cache_with_fallback J key fetch ttl st =
        (Inr (Some v),
         st\<lparr>world := w, fetch_calls := Suc (fetch_calls st),
            redis := snd (RedisConfig_set J (redis st) key (Some v) ttl)\<rparr>))
   \<and> (redis_client (redis st) = Some r \<and> (\<forall>cmd. fault r cmd = None)
       \<and> 0 < py_or ttl (default_ttl (redis st))
       \<and> cache_with_fallback J key fetch ttl st = (Inr (Some v), st1)
       \<and> dumps J (Some v) = Inr s \<and> s \<noteq> [] \<and> loads J s = Inr (Some v) \<longrightarrow>
      cache_with_fallback J key fetch ttl st1 = (Inr (Some v), st1)
      \<and> fetch_calls st1 \<le> Suc (fetch_calls st))"
proof (intro conjI impI)
  assume "RedisConfig_get J (redis st) key = Some u"
  then show "cache_with_fallback J key fetch ttl st = (Inr (Some u), st)"
    by (rule cache_hit)
next
  assume "RedisConfig_get J (redis st) key = None \<and> fetch (world st) = (Inr (Some v), w)"
  then show "cache_with_fallback J key fetch ttl st =
        (Inr (Some v),
         st\<lparr>world := w, fetch_calls := Suc (fetch_calls st),
            redis := snd (RedisConfig_set J (redis st) key (Some v) ttl)\<rparr>)"
    by (simp add: cache_miss_value)
next
  assume a: "redis_client (redis st) = Some r \<and> (\<forall>cmd. fault r cmd = None)
       \<and> 0 < py_or ttl (default_ttl (redis st))
       \<and> cache_with_fallback J key fetch ttl st = (Inr (Some v), st1)
       \<and> dumps J (Some v) = Inr s \<and> s \<noteq> [] \<and> loads J s = Inr (Some v)"
  have stored: "RedisConfig_get J (redis st1) key = Some v \<and> fetch_calls st1 \<le> Suc (fetch_calls st)"
  proof (cases "RedisConfig_get J (redis st) key")
    case (Some u)
    with a cache_hit[OF Some, of fetch ttl] show ?thesis by simp
  next
    case None
    obtain res w where f: "fetch (world st) = (res, w)" by (cases "fetch (world st)")
    show ?thesis
    proof (cases res)
      case (Inl e)
      with a None f show ?thesis by (simp add: cache_miss_raise)
    next
      case (Inr fresh)
      show ?thesis
      proof (cases fresh)
        case None
        with a \<open>RedisConfig_get J (redis st) key = None\<close> f Inr show ?thesis
          by (simp add: cache_miss_none)
      next
        case (Some v')
        with a \<open>RedisConfig_get J (redis st) key = None\<close> f Inr
        have "v' = v" and st1: "st1 = st\<lparr>world := w, fetch_calls := Suc (fetch_calls st),
            redis := snd (RedisConfig_set J (redis st) key (Some v) ttl)\<rparr>"
          by (auto simp: cache_miss_value)
        from a have "RedisConfig_get J (snd (RedisConfig_set J (redis st) key (Some v) ttl)) key = Some v"
          using set_then_get[of "redis st" r ttl J v s key] by simp
        with st1 show ?thesis by simp
      qed
    qed
  qed
  then show "cache_with_fallback J key fetch ttl st1 = (Inr (Some v), st1)"
    by (simp add: cache_hit)
  from stored show "fetch_calls st1 \<le> Suc (fetch_calls st)" by simp
qed

theorem cache_with_fallback_idempotent_when_written_witness:
  "fst (cache_with_fallback string_json ''k'' fetch_next None with_redis) = Inr (Some ''a'')
   \<and> fst (cache_with_fallback string_json ''k'' fetch_next None
            (snd (cache_with_fallback string_json ''k'' fetch_next None with_redis)))
       = Inr (Some ''a'')
   \<and> fetch_calls (snd (cache_with_fallback string_json ''k'' fetch_next None
            (snd (cache_with_fallback string_json ''k'' fetch_next None with_redis)))) = 1"
proof -
  let ?text = "[CHR 0x22, CHR ''a'', CHR 0x22]"
  have miss: "RedisConfig_get string_json (redis with_redis) ''k'' = None"
    by (simp add: sample_defs exec_defs)
  have fetch: "fetch_next (world with_redis) = (Inr (Some ''a''), [''b''])"
    by (simp add: sample_defs)
  have first: "cache_with_fallback string_json ''k'' fetch_next None with_redis =
      (Inr (Some ''a''),
       with_redis\<lparr>world := [''b''], fetch_calls := Suc (fetch_calls with_redis),
          redis := snd (RedisConfig_set string_json (redis with_redis) ''k'' (Some ''a'') None)\<rparr>)"
    (is "_ = (_, ?st1)")
    using cache_with_fallback_idempotent_when_written[of string_json with_redis "''k''" _ fetch_next None "''a''" "[''b'']"] miss fetch
    by blast
  have hyp: "redis_client (redis with_redis) = Some (healthy_server [])
       \<and> (\<forall>cmd. fault (healthy_server []) cmd = None)
       \<and> 0 < py_or None (default_ttl (redis with_redis))
       \<and> dumps string_json (Some ''a'') = Inr ?text \<and> ?text \<noteq> []
       \<and> loads string_json ?text = Inr (Some ''a'')"
    by (simp add: sample_defs py_or_def)
  have second: "cache_with_fallback string_json ''k'' fetch_next None ?st1 = (Inr (Some ''a''), ?st1)"
    using cache_with_fallback_idempotent_when_written[of string_json with_redis "''k''" _ fetch_next None "''a''" _ "healthy_server []"
               ?st1 ?text] first hyp
    by blast
  have calls: "fetch_calls ?st1 = 1"
    by (simp add: sample_defs)
  show ?thesis
    by (simp only: first second fst_conv snd_conv calls)
qed

text \<open>
  Claim C1 as stated fails when Redis was never connected: both of two sequential calls
  invoke the producer, and the second returns what the producer answers the second time.
\<close>

theorem cache_with_fallback_twice_without_redis:
  "fst (cache_with_fallback string_json ''k'' fetch_next None without_redis) = Inr (Some ''a'')
   \<and> fst (cache_with_fallback string_json ''k'' fetch_next None
            (snd (cache_with_fallback string_json ''k'' fetch_next None without_redis)))
       = Inr (Some ''b'')
   \<and> fetch_calls (snd (cache_with_fallback string_json ''k'' fetch_next None
            (snd (cache_with_fallback string_json ''k'' fetch_next None without_redis)))) = 2"
  by (simp add: sample_defs exec_defs)

text \<open>
  Claim C2. When the key misses and the producer raises \<open>e\<close>, the call raises the same
  \<open>e\<close>, the \<open>RedisConfig\<close> (and with it the store) is unchanged and the key still misses.
  A retry whose producer returns a value \<open>v\<close> returns \<open>v\<close> and writes it exactly as a
  first call does; on a healthy store the key then holds \<open>v\<close>.
\<close>

theorem producer_failure_propagated_not_cached:
  assumes miss: "RedisConfig_get J (redis st) key = None"
    and fails: "fetch (world st) = (Inl e, w)"
    and retry: "good w = (Inr (Some v), w')"
  shows "cache_with_fallback J key fetch ttl st =
           (Inl e, st\<lparr>world := w, fetch_calls := Suc (fetch_calls st)\<rparr>)
    \<and> redis (snd (cache_with_fallback J key fetch ttl st)) = redis st
    \<and> RedisConfig_get J (redis (snd (cache_with_fallback J key fetch ttl st))) key = None
    \<and> cache_with_fallback J key good ttl (snd (cache_with_fallback J key fetch ttl st)) =
           (Inr (Some v),
            st\<lparr>world := w', fetch_calls := Suc (Suc (fetch_calls st)),
               redis := snd (RedisConfig_set J (redis st) key (Some v) ttl)\<rparr>)
    \<and> (redis_client (redis st) = Some r \<and> (\<forall>cmd. fault r cmd = None)
         \<and> 0 < py_or ttl (default_ttl (redis st))
         \<and> dumps J (Some v) = Inr s \<and> s \<noteq> [] \<and> loads J s = Inr (Some v) \<longrightarrow>
       RedisConfig_get J
         (redis (snd (cache_with_fallback J key good ttl
                        (snd (cache_with_fallback J key fetch ttl st))))) key = Some v)"
proof -
  let ?st1 = "st\<lparr>world := w, fetch_calls := Suc (fetch_calls st)\<rparr>"
  have first: "cache_with_fallback J key fetch ttl st = (Inl e, ?st1)"
    using miss fails by (rule cache_miss_raise)
  have miss1: "RedisConfig_get J (redis ?st1) key = None"
    using miss by simp
  have second: "cache_with_fallback J key good ttl ?st1 =
           (Inr (Some v),
            st\<lparr>world := w', fetch_calls := Suc (Suc (fetch_calls st)),
               redis := snd (RedisConfig_set J (redis st) key (Some v) ttl)\<rparr>)"
    using cache_miss_value[OF miss1, of good v w' ttl] retry by simp
  have populated: "RedisConfig_get J (snd (RedisConfig_set J (redis st) key (Some v) ttl)) key = Some v"
    if "redis_client (redis st) = Some r \<and> (\<forall>cmd. fault r cmd = None)
         \<and> 0 < py_or ttl (default_ttl (redis st))
         \<and> dumps J (Some v) = Inr s \<and> s \<noteq> [] \<and> loads J s = Inr (Some v)"
    using that set_then_get[of "redis st" r ttl J v s key] by simp
  show ?thesis
    using miss populated by (simp add: first second)
qed

theorem producer_failure_propagated_not_cached_witness:
  "fst (cache_with_fallback string_json ''k'' fetch_fails None with_redis)
     = Inl (Exc (Exception ''database unavailable''))
   \<and> redis (snd (cache_with_fallback string_json ''k'' fetch_fails None with_redis))
     = redis with_redis
   \<and> RedisConfig_get string_json
        (redis (snd (cache_with_fallback string_json ''k'' fetch_next None
                       (snd (cache_with_fallback string_json ''k'' fetch_fails None with_redis)))))
        ''k'' = Some ''a''"
proof -
  let ?text = "[CHR 0x22, CHR ''a'', CHR 0x22]"
  have miss: "RedisConfig_get string_json (redis with_redis) ''k'' = None"
    by (simp add: sample_defs exec_defs)
  have fails: "fetch_fails (world with_redis)
                 = (Inl (Exc (Exception ''database unavailable'')), [''a'', ''b''])"
    by (simp add: sample_defs)
  have retry: "fetch_next [''a'', ''b''] = (Inr (Some ''a''), [''b''])"
    by (simp add: sample_defs)
  have hyp: "redis_client (redis with_redis) = Some (healthy_server [])
       \<and> (\<forall>cmd. fault (healthy_server []) cmd = None)
       \<and> 0 < py_or None (default_ttl (redis with_redis))
       \<and> dumps string_json (Some ''a'') = Inr ?text \<and> ?text \<noteq> []
       \<and> loads string_json ?text = Inr (Some ''a'')"
    by (simp add: sample_defs py_or_def)
  note inst = producer_failure_propagated_not_cached[where J = string_json and st = with_redis and key = "''k''"
               and fetch = fetch_fails and good = fetch_next and ttl = None
               and r = "healthy_server []" and s = ?text, OF miss fails retry]
  from inst have "fst (cache_with_fallback string_json ''k'' fetch_fails None with_redis)
     = Inl (Exc (Exception ''database unavailable''))"
    by (simp only: fst_conv)
  with inst hyp show ?thesis
    by blast
qed

text \<open>
  Claim C3. When the key misses and the producer returns \<^verbatim>\<open>None\<close>, the call returns
  \<^verbatim>\<open>None\<close> and changes only the world and the call counter: nothing is written. A
  following call for the same key, with any producer, invokes its producer again.
\<close>

theorem null_result_not_cached:
  assumes miss: "RedisConfig_get J (redis st) key = None"
    and null: "fetch (world st) = (Inr None, w)"
  shows "cache_with_fallback J key fetch ttl st =
           (Inr None, st\<lparr>world := w, fetch_calls := Suc (fetch_calls st)\<rparr>)
    \<and> redis (snd (cache_with_fallback J key fetch ttl st)) = redis st
    \<and> fetch_calls (snd (cache_with_fallback J key fetch' ttl'
                          (snd (cache_with_fallback J key fetch ttl st))))
        = Suc (Suc (fetch_calls st))"
proof -
  let ?st1 = "st\<lparr>world := w, fetch_calls := Suc (fetch_calls st)\<rparr>"
  have first: "cache_with_fallback J key fetch ttl st = (Inr None, ?st1)"
    using miss null by (rule cache_miss_none)
  have miss1: "RedisConfig_get J (redis ?st1) key = None"
    using miss by simp
  have "fetch_calls (snd (cache_with_fallback J key fetch' ttl' ?st1)) = Suc (fetch_calls ?st1)"
    using miss1 by (rule cache_miss_calls)
  then show ?thesis
    by (simp add: first)
qed

theorem null_result_not_cached_witness:
  "cache_with_fallback string_json ''k'' fetch_nothing None with_redis
     = (Inr None, with_redis\<lparr>world := [''a'', ''b''], fetch_calls := Suc (fetch_calls with_redis)\<rparr>)
   \<and> fetch_calls (snd (cache_with_fallback string_json ''k'' fetch_nothing None
                          (snd (cache_with_fallback string_json ''k'' fetch_nothing None with_redis))))
       = 2"
proof -
  have miss: "RedisConfig_get string_json (redis with_redis) ''k'' = None"
    by (simp add: sample_defs exec_defs)
  have null: "fetch_nothing (world with_redis) = (Inr None, [''a'', ''b''])"
    by (simp add: sample_defs)
  have zero: "fetch_calls with_redis = 0"
    by (simp add: sample_defs)
  note inst = null_result_not_cached[where J = string_json and st = with_redis and key = "''k''"
               and fetch = fetch_nothing and ttl = None and fetch' = fetch_nothing
               and ttl' = None, OF miss null]
  from inst have calls: "fetch_calls (snd (cache_with_fallback string_json ''k'' fetch_nothing None
                          (snd (cache_with_fallback string_json ''k'' fetch_nothing None with_redis))))
       = Suc (Suc (fetch_calls with_redis))"
    by blast
  have "Suc (Suc (fetch_calls with_redis)) = 2"
    by (simp add: zero)
  with calls have "fetch_calls (snd (cache_with_fallback string_json ''k'' fetch_nothing None
                          (snd (cache_with_fallback string_json ''k'' fetch_nothing None with_redis))))
       = 2"
    by (rule trans)
  with inst show ?thesis
    by blast
qed

text \<open>
  Claim C10. On a miss with a producer that returns a value \<open>v\<close>, the call returns \<open>v\<close>
  whatever \<open>set\<close> does: the state after the call is the one \<open>set\<close> left, its boolean is
  dropped, and when \<open>set\<close> returned \<^verbatim>\<open>False\<close> the store is as it was. The call never
  raises here.
\<close>

theorem fresh_value_returned_whatever_set_returns:
  assumes miss: "RedisConfig_get J (redis st) key = None"
    and fresh: "fetch (world st) = (Inr (Some v), w)"
  shows "fst (cache_with_fallback J key fetch ttl st) = Inr (Some v)
    \<and> redis (snd (cache_with_fallback J key fetch ttl st))
        = snd (RedisConfig_set J (redis st) key (Some v) ttl)
    \<and> (fst (RedisConfig_set J (redis st) key (Some v) ttl) = False \<longrightarrow>
         redis (snd (cache_with_fallback J key fetch ttl st)) = redis st)"
  using miss fresh by (simp add: cache_miss_value set_failure_unchanged)

theorem fresh_value_returned_whatever_set_returns_witness:
  "fst (RedisConfig_set string_json (redis without_redis) ''k'' (Some ''a'') None) = False
   \<and> fst (cache_with_fallback string_json ''k'' fetch_next None without_redis) = Inr (Some ''a'')
   \<and> redis (snd (cache_with_fallback string_json ''k'' fetch_next None without_redis))
       = redis without_redis"
proof -
  have miss: "RedisConfig_get string_json (redis without_redis) ''k'' = None"
    by (simp add: sample_defs exec_defs)
  have fresh: "fetch_next (world without_redis) = (Inr (Some ''a''), [''b''])"
    by (simp add: sample_defs)
  have failed: "fst (RedisConfig_set string_json (redis without_redis) ''k'' (Some ''a'') None) = False"
    by (simp add: sample_defs exec_defs)
  note inst = fresh_value_returned_whatever_set_returns[where J = string_json and st = without_redis and key = "''k''"
                and fetch = fetch_next and ttl = None, OF miss fresh]
  with failed show ?thesis
    by blast
qed

subsection \<open>The expiry of a written entry\<close>

text \<open>
  Claim C9. With a connected client, a default TTL of 600 (what \<^verbatim>\<open>__init__\<close> sets), a
  value that serialises and a \<^verbatim>\<open>SETEX\<close> that does not raise, \<open>set\<close> with ttl 0 succeeds
  and stores the entry with expiry 600; it is the same call as with ttl \<^verbatim>\<open>None\<close>; and
  for no ttl argument is the expiry sent to the server 0.
\<close>

theorem set_zero_ttl_takes_default:
  assumes client: "redis_client c = Some r"
    and dflt: "default_ttl c = 600"
    and ser: "dumps J val = Inr s"
    and up: "fault r (SETEX key 600 s) = None"
  shows "RedisConfig_set J c key val (Some 0) =
           (True, c\<lparr>redis_client := Some (r\<lparr>entries := AList.update key (600, s) (entries r)\<rparr>)\<rparr>)
    \<and> RedisConfig_set J c key val (Some 0) = RedisConfig_set J c key val None
    \<and> (\<forall>ttl. py_or ttl (default_ttl c) \<noteq> 0)"
  using assms by (simp add: RedisConfig_set_def client_setex_def py_or_def split: option.split)

theorem set_zero_ttl_takes_default_witness:
  "RedisConfig_set string_json (connected (healthy_server [])) ''k'' (Some ''a'') (Some 0)
     = (True, connected (healthy_server [])\<lparr>redis_client :=
          Some (healthy_server []\<lparr>entries := [(''k'', 600, [CHR 0x22, CHR ''a'', CHR 0x22])]\<rparr>)\<rparr>)"
proof -
  let ?text = "[CHR 0x22, CHR ''a'', CHR 0x22]"
  have client: "redis_client (connected (healthy_server [])) = Some (healthy_server [])"
    by (simp add: sample_defs)
  have dflt: "default_ttl (connected (healthy_server [])) = 600"
    by (simp add: sample_defs)
  have ser: "dumps string_json (Some ''a'') = Inr ?text"
    by (simp add: sample_defs)
  have up: "fault (healthy_server []) (SETEX ''k'' 600 ?text) = None"
    by (simp add: sample_defs)
  have "entries (healthy_server []) = []"
    by (simp add: sample_defs)
  then show ?thesis
    using set_zero_ttl_takes_default[OF client dflt ser up] by simp
qed

subsection \<open>Hit rate\<close>

lemma round_half_even_close: "\<bar>of_int (round_half_even y) - y\<bar> \<le> 1 / 2"
proof -
  define f where "f = \<lfloor>y\<rfloor>"
  define d where "d = y - of_int f"
  have d0: "0 \<le> d" and d1: "d < 1"
    unfolding d_def f_def by linarith+
  have "round_half_even y = (if d < 1 / 2 then f else if 1 / 2 < d then f + 1
                 else if even f then f else f + 1)"
    unfolding round_half_even_def Let_def d_def f_def ..
  then show ?thesis
    using d0 d1 by (auto simp: d_def abs_if)
qed

lemma round2_close: "\<bar>round2 x - x\<bar> \<le> 1 / 200"
proof -
  have "round2 x - x = (of_int (round_half_even (x * 100)) - x * 100) / 100"
    by (simp add: round2_def field_simps)
  then have "\<bar>round2 x - x\<bar> = \<bar>of_int (round_half_even (x * 100)) - x * 100\<bar> / 100"
    by (simp only: abs_divide abs_numeral)
  with round_half_even_close[of "x * 100"] show ?thesis
    by simp
qed

lemma floorlog2_le:
  assumes "0 < a"
  shows "2 powi (floorlog2 a) \<le> a"
proof -
  obtain p q where pq: "quotient_of a = (p, q)" by (cases "quotient_of a")
  then have q: "0 < q" and a: "a = of_int p / of_int q"
    by (auto dest: quotient_of_denom_pos quotient_of_div)
  with assms have p: "0 < p"
    by (simp add: zero_less_divide_iff)
  let ?k = "bitlen p - bitlen q"
  show ?thesis
  proof (cases "2 powi ?k \<le> a")
    case True
    then show ?thesis by (simp add: floorlog2_def pq)
  next
    case False
    then have fl: "floorlog2 a = ?k - 1" by (simp add: floorlog2_def pq)
    from bitlen_bounds[OF p] have lo: "(2::int) ^ nat (bitlen p - 1) \<le> p" by simp
    from bitlen_bounds[OF q] have hi: "q < (2::int) ^ nat (bitlen q)" by simp
    have bp: "1 \<le> bitlen p" using p by (simp add: bitlen_alt_def)
    have bq: "0 \<le> bitlen q" by (rule bitlen_nonneg)
    have lo': "(2::rat) powi (bitlen p - 1) \<le> of_int p"
    proof -
      have "(2::rat) powi (bitlen p - 1) = of_int (2 ^ nat (bitlen p - 1))"
        using bp by (simp add: power_int_nonneg_exp)
      also have "\<dots> \<le> of_int p" using lo by (simp only: of_int_le_iff)
      finally show ?thesis .
    qed
    have hi': "of_int q \<le> (2::rat) powi (bitlen q)"
    proof -
      have "(of_int q :: rat) \<le> of_int (2 ^ nat (bitlen q))" using hi by (simp only: of_int_le_iff less_imp_le)
      also have "\<dots> = (2::rat) powi (bitlen q)"
        using bq by (simp add: power_int_nonneg_exp)
      finally show ?thesis .
    qed
    have "?k - 1 = (bitlen p - 1) - bitlen q"
      by simp
    then have "(2::rat) powi (?k - 1) = 2 powi ((bitlen p - 1) - bitlen q)"
      by (rule arg_cong)
    also have "\<dots> = 2 powi (bitlen p - 1) / 2 powi (bitlen q)"
      by (rule power_int_diff) simp
    also have "\<dots> \<le> of_int p / 2 powi (bitlen q)"
      using lo' by (simp add: divide_right_mono)
    also have "\<dots> \<le> of_int p / of_int q"
      using hi' p q by (simp add: frac_le)
    finally have "(2::rat) powi (?k - 1) \<le> of_int p / of_int q" .
    then have "(2::rat) powi (?k - 1) \<le> a"
      by (simp only: a)
    then show ?thesis
      by (simp only: fl)
  qed
qed

lemma floorlog2_less:
  assumes "0 < a" "a < 2 powi n"
  shows "floorlog2 a < n"
proof (rule ccontr)
  assume "\<not> floorlog2 a < n"
  then have "n \<le> floorlog2 a" by simp
  then have "(2::rat) powi n \<le> 2 powi (floorlog2 a)"
    by (simp add: power_int_increasing)
  also have "\<dots> \<le> a" using assms(1) by (rule floorlog2_le)
  finally show False using assms(2) by simp
qed

text \<open>Together with \<open>floorlog2_le\<close>: \<open>floorlog2 a\<close> is the binary exponent of \<open>a\<close>.\<close>

lemma floorlog2_upper:
  assumes "0 < a"
  shows "a < 2 powi (floorlog2 a + 1)"
proof -
  obtain p q where pq: "quotient_of a = (p, q)" by (cases "quotient_of a")
  then have q: "0 < q" and a: "a = of_int p / of_int q"
    by (auto dest: quotient_of_denom_pos quotient_of_div)
  with assms have p: "0 < p"
    by (simp add: zero_less_divide_iff)
  let ?k = "bitlen p - bitlen q"
  show ?thesis
  proof (cases "2 powi ?k \<le> a")
    case False
    then show ?thesis by (simp add: floorlog2_def pq)
  next
    case True
    then have fl: "floorlog2 a = ?k" by (simp add: floorlog2_def pq)
    from bitlen_bounds[OF p] have hi: "p < (2::int) ^ nat (bitlen p)" by simp
    from bitlen_bounds[OF q] have lo: "(2::int) ^ nat (bitlen q - 1) \<le> q" by simp
    have bp: "0 \<le> bitlen p" by (rule bitlen_nonneg)
    have bq: "1 \<le> bitlen q" using q by (simp add: bitlen_alt_def)
    have hi': "of_int p < (2::rat) powi (bitlen p)"
    proof -
      have "(of_int p :: rat) < of_int (2 ^ nat (bitlen p))" using hi by (simp only: of_int_less_iff)
      also have "\<dots> = (2::rat) powi (bitlen p)"
        using bp by (simp add: power_int_nonneg_exp)
      finally show ?thesis .
    qed
    have lo': "(2::rat) powi (bitlen q - 1) \<le> of_int q"
    proof -
      have "(2::rat) powi (bitlen q - 1) = of_int (2 ^ nat (bitlen q - 1))"
        using bq by (simp add: power_int_nonneg_exp)
      also have "\<dots> \<le> of_int q" using lo by (simp only: of_int_le_iff)
      finally show ?thesis .
    qed
    have pos: "(0::rat) < 2 powi (bitlen q - 1)" by simp
    have "of_int p / of_int q \<le> of_int p / (2::rat) powi (bitlen q - 1)"
      using lo' p pos by (simp add: frac_le)
    also have "\<dots> < 2 powi (bitlen p) / 2 powi (bitlen q - 1)"
      using hi' pos by (simp add: divide_strict_right_mono)
    also have "\<dots> = 2 powi (bitlen p - (bitlen q - 1))"
      by (rule power_int_diff[symmetric]) simp
    also have "bitlen p - (bitlen q - 1) = ?k + 1"
      by simp
    finally have "of_int p / of_int q < (2::rat) powi (?k + 1)" .
    then have "a < (2::rat) powi (?k + 1)"
      by (simp only: a)
    then show ?thesis
      by (simp only: fl)
  qed
qed

lemma to_double_close:
  assumes "\<bar>x\<bar> < 128"
  shows "\<bar>to_double x - x\<bar> \<le> 1 / 2 ^ 47"
proof (cases "x = 0")
  case True
  then show ?thesis by (simp add: to_double_def)
next
  case False
  define a where "a = \<bar>x\<bar>"
  define e where "e = max (floorlog2 a - 52) (- 1074)"
  define m where "m = round_half_even (a / 2 powi e)"
  have a: "0 < a" "a < 2 powi 7"
    using False assms by (simp_all add: a_def)
  have e: "e \<le> - 46"
    using floorlog2_less[OF a] by (simp add: e_def)
  have pos: "(0::rat) < 2 powi e" by simp
  have td: "to_double x = sgn x * (of_int m * 2 powi e)"
    using False by (simp add: to_double_def Let_def a_def e_def m_def)
  have x: "x = sgn x * a"
    by (simp add: a_def sgn_mult_abs)
  have "to_double x - x = sgn x * (of_int m * 2 powi e - a)"
    by (subst (2) x) (simp add: td algebra_simps)
  then have "\<bar>to_double x - x\<bar> = \<bar>of_int m * 2 powi e - a\<bar>"
    using False by (simp add: abs_mult abs_sgn_eq)
  also have "of_int m * 2 powi e - a = (of_int m - a / 2 powi e) * 2 powi e"
    using pos by (simp add: field_simps)
  also have "\<bar>\<dots>\<bar> = \<bar>of_int m - a / 2 powi e\<bar> * 2 powi e"
    using pos by (simp add: abs_mult)
  also have "\<dots> \<le> 1 / 2 * 2 powi e"
    using round_half_even_close[of "a / 2 powi e"] pos
    by (intro mult_right_mono) (simp_all add: m_def)
  also have "\<dots> \<le> 1 / 2 * 2 powi (- 46)"
    using e by (intro mult_left_mono power_int_increasing) simp_all
  also have "\<dots> = 1 / 2 ^ 47"
    by (simp add: power_int_minus_divide)
  finally show ?thesis .
qed

lemma not_overflows:
  assumes "\<bar>d\<bar> < 128"
  shows "\<not> overflows d"
proof
  assume "overflows d"
  then have d: "0 < \<bar>d\<bar>" and big: "1024 \<le> floorlog2 \<bar>d\<bar>"
    by (simp_all add: overflows_def)
  from assms have "\<bar>d\<bar> < 2 powi 7" by simp
  from floorlog2_less[OF d this] big show False by simp
qed

lemma hit_rate_steps:
  assumes "0 \<le> hits" "0 \<le> misses" "hits + misses \<noteq> 0"
  defines "q \<equiv> of_int hits / of_int (hits + misses)"
  defines "d \<equiv> to_double (round2 (to_double (to_double q * 100)))"
  shows "calculate_hit_rate hits misses = Inr (Finite d)"
    and "\<bar>d - 100 * q\<bar> \<le> 1 / 200 + 1 / 2 ^ 40"
proof -
  define a where "a = to_double q"
  define b where "b = to_double (a * 100)"
  define c where "c = round2 b"
  have q: "0 \<le> q" "q \<le> 1"
    using assms(1-3) by (simp_all add: q_def divide_le_eq_1)
  then have "\<bar>q\<bar> < 128" by simp
  from to_double_close[OF this] have a: "\<bar>a - q\<bar> \<le> 1 / 2 ^ 47"
    by (simp add: a_def)
  with q have a128: "\<bar>a\<bar> < 128" and a100: "\<bar>a * 100\<bar> < 128"
    by (simp_all add: abs_if split: if_splits)
  from to_double_close[OF a100] have b: "\<bar>b - a * 100\<bar> \<le> 1 / 2 ^ 47"
    by (simp add: b_def)
  with a q have b128: "\<bar>b\<bar> < 128"
    by (simp add: abs_if split: if_splits)
  have c: "\<bar>c - b\<bar> \<le> 1 / 200"
    unfolding c_def by (rule round2_close)
  with a b q have c128: "\<bar>c\<bar> < 128"
    by (simp add: abs_if split: if_splits)
  from to_double_close[OF c128] have d: "\<bar>d - c\<bar> \<le> 1 / 2 ^ 47"
    by (simp add: d_def c_def b_def a_def)
  have div: "int_truediv hits (hits + misses) = Inr a"
    using assms(3) not_overflows[OF a128]
    by (simp add: int_truediv_def Let_def a_def q_def)
  have mul: "round_to_double (a * 100) = Finite b"
    using not_overflows[OF b128] by (simp add: round_to_double_def Let_def b_def)
  have "calculate_hit_rate hits misses = Inr (py_round2 (round_to_double (a * 100)))"
    using assms(3) by (simp add: calculate_hit_rate_def Let_def div)
  also have "\<dots> = Inr (Finite (to_double (round2 b)))"
    by (simp add: mul py_round2_def)
  also have "to_double (round2 b) = d"
    by (simp add: d_def b_def a_def)
  finally show "calculate_hit_rate hits misses = Inr (Finite d)" .
  have "\<bar>d - 100 * q\<bar> \<le> \<bar>d - c\<bar> + \<bar>c - b\<bar> + \<bar>b - a * 100\<bar> + 100 * \<bar>a - q\<bar>"
    by (simp add: abs_if split: if_splits)
  also have "\<dots> \<le> 1 / 2 ^ 47 + 1 / 200 + 1 / 2 ^ 47 + 100 * (1 / 2 ^ 47)"
    using a b c d by (intro add_mono mult_left_mono) simp_all
  also have "\<dots> \<le> 1 / 200 + 1 / 2 ^ 40"
    by simp
  finally show "\<bar>d - 100 * q\<bar> \<le> 1 / 200 + 1 / 2 ^ 40" .
qed

text \<open>
  Claim C8, as the code has it. For counters that are not negative: with no traffic the
  hit rate is 0.0. Otherwise it is a finite float, namely \<^verbatim>\<open>round(x, 2)\<close> of the double
  \<^verbatim>\<open>x = (hits / total) * 100\<close>, and it is at most \<open>1 / 200 + 1 / 2 ^ 40\<close> away from the exact
  percentage \<open>100 * hits / (hits + misses)\<close>. For 80 hits and 20 misses it is exactly 80.0,
  for no hits and no misses 0.0.
\<close>

theorem hit_rate_is_rounded_percentage:
  assumes "0 \<le> hits" and "0 \<le> misses"
  shows "(hits + misses = 0 \<longrightarrow> calculate_hit_rate hits misses = Inr (Finite 0))
   \<and> (hits + misses \<noteq> 0 \<longrightarrow>
        (\<exists>d. calculate_hit_rate hits misses = Inr (Finite d)
           \<and> d = to_double (round2 (to_double
                     (to_double (of_int hits / of_int (hits + misses)) * 100)))
           \<and> \<bar>d - 100 * (of_int hits / of_int (hits + misses))\<bar> \<le> 1 / 200 + 1 / 2 ^ 40))
   \<and> calculate_hit_rate 80 20 = Inr (Finite 80)
   \<and> calculate_hit_rate 0 0 = Inr (Finite 0)"
proof (intro conjI impI)
  assume "hits + misses = 0"
  then show "calculate_hit_rate hits misses = Inr (Finite 0)"
    by (simp add: calculate_hit_rate_def)
next
  assume nz: "hits + misses \<noteq> 0"
  from hit_rate_steps[OF assms nz]
  show "\<exists>d. calculate_hit_rate hits misses = Inr (Finite d)
           \<and> d = to_double (round2 (to_double
                     (to_double (of_int hits / of_int (hits + misses)) * 100)))
           \<and> \<bar>d - 100 * (of_int hits / of_int (hits + misses))\<bar> \<le> 1 / 200 + 1 / 2 ^ 40"
    by blast
next
  show "calculate_hit_rate 80 20 = Inr (Finite 80)"
    by code_simp
next
  show "calculate_hit_rate 0 0 = Inr (Finite 0)"
    by (simp add: calculate_hit_rate_def)
qed

theorem hit_rate_is_rounded_percentage_witness:
  "calculate_hit_rate 0 0 = Inr (Finite 0)
   \<and> (\<exists>d. calculate_hit_rate 1 2 = Inr (Finite d)
          \<and> \<bar>d - 100 * (of_int 1 / of_int (1 + 2))\<bar> \<le> 1 / 200 + 1 / 2 ^ 40)"
proof -
  have h: "(0::int) \<le> 1" and m: "(0::int) \<le> 2" and z: "(0::int) \<le> 0"
    by simp_all
  have nz: "(1::int) + 2 \<noteq> 0" and zz: "(0::int) + 0 = 0"
    by simp_all
  from hit_rate_is_rounded_percentage[OF z z] zz have a: "calculate_hit_rate 0 0 = Inr (Finite 0)"
    by blast
  from hit_rate_is_rounded_percentage[OF h m] nz
  have b: "\<exists>d. calculate_hit_rate 1 2 = Inr (Finite d)
          \<and> \<bar>d - 100 * (of_int 1 / of_int (1 + 2))\<bar> \<le> 1 / 200 + 1 / 2 ^ 40"
    by blast
  from a b show ?thesis
    by (rule conjI)
qed

text \<open>
  Claim C8 as stated fails where the percentage has more than two decimals: one hit and
  two misses do not give 100/3.
\<close>

theorem hit_rate_one_in_three: "calculate_hit_rate 1 2 \<noteq> Inr (Finite (100 * (of_int 1 / of_int (1 + 2))))"
  by code_simp

text \<open>
  Two values of the function: one hit and two misses give the double nearest to 33.33;
  23 hits and 137 misses give the double nearest to 14.37, although the exact percentage
  is 14.375: the product \<^verbatim>\<open>(23 / 160) * 100\<close> is a double just below it.
\<close>

lemma hit_rate_1_2:
  "calculate_hit_rate 1 2 = Inr (Finite (to_double (3333 / 100)))"
  by code_simp

lemma hit_rate_23_137:
  "calculate_hit_rate 23 137 = Inr (Finite (to_double (1437 / 100)))"
  by code_simp

lemma double_14_37: "to_double (1437 / 100) = 8089590830664253 / 562949953421312"
  by code_simp

subsection \<open>Cache keys\<close>

lemma join_amp_Cons:
  "join_amp (x # xs) = (if xs = [] then x else x @ CHR ''&'' # join_amp xs)"
  by (cases xs) simp_all

lemma join_amp_empty:
  "\<forall>x\<in>set xs. x \<noteq> [] \<Longrightarrow> join_amp xs = [] \<longleftrightarrow> xs = []"
  by (cases xs) (simp_all add: join_amp_Cons)

lemma split_at_first:
  assumes "c \<notin> set x" "c \<notin> set y" "x @ c # r = y @ c # t"
  shows "x = y \<and> r = t"
  using assms
proof (induction x arbitrary: y)
  case Nil
  then show ?case by (cases y) auto
next
  case (Cons a x)
  then show ?case by (cases y) auto
qed

lemma join_amp_inj:
  assumes "\<forall>x\<in>set xs. CHR ''&'' \<notin> set x \<and> x \<noteq> []"
    and "\<forall>y\<in>set ys. CHR ''&'' \<notin> set y \<and> y \<noteq> []"
    and "join_amp xs = join_amp ys"
  shows "xs = ys"
  using assms
proof (induction xs arbitrary: ys)
  case Nil
  then show ?case using join_amp_empty[of ys] by auto
next
  case (Cons x xs)
  from Cons.prems have "ys \<noteq> []"
    using join_amp_empty[of "x # xs"] by auto
  then obtain y ys' where ys: "ys = y # ys'" by (cases ys) auto
  from Cons.prems ys have nx: "CHR ''&'' \<notin> set x" and ny: "CHR ''&'' \<notin> set y"
    by auto
  from Cons.prems(3) ys
  have eq: "(if xs = [] then x else x @ CHR ''&'' # join_amp xs)
          = (if ys' = [] then y else y @ CHR ''&'' # join_amp ys')"
    by (simp only: join_amp_Cons)
  show ?case
  proof (cases "xs = []")
    case True
    show ?thesis
    proof (cases "ys' = []")
      case True
      with \<open>xs = []\<close> eq ys show ?thesis by simp
    next
      case False
      with \<open>xs = []\<close> eq nx ny show ?thesis by auto
    qed
  next
    case False
    show ?thesis
    proof (cases "ys' = []")
      case True
      with \<open>xs \<noteq> []\<close> eq nx ny show ?thesis by auto
    next
      case f: False
      with \<open>xs \<noteq> []\<close> eq have e: "x @ CHR ''&'' # join_amp xs = y @ CHR ''&'' # join_amp ys'"
        by simp
      note s = split_at_first[OF nx ny e]
      from s have xy: "x = y" and j: "join_amp xs = join_amp ys'"
        by simp_all
      have p1: "\<forall>x\<in>set xs. CHR ''&'' \<notin> set x \<and> x \<noteq> []"
        using Cons.prems(1) by simp
      have p2: "\<forall>y\<in>set ys'. CHR ''&'' \<notin> set y \<and> y \<noteq> []"
        using Cons.prems(2) ys by simp
      have "xs = ys'"
        using p1 p2 j by (rule Cons.IH)
      with xy ys show ?thesis by simp
    qed
  qed
qed

lemma map_render_inj:
  assumes "\<forall>kv\<in>set xs. CHR ''='' \<notin> set (fst kv)"
    and "\<forall>kv\<in>set ys. CHR ''='' \<notin> set (fst kv)"
    and "map (\<lambda>kv. fst kv @ CHR ''='' # snd kv) xs = map (\<lambda>kv. fst kv @ CHR ''='' # snd kv) ys"
  shows "xs = (ys :: (string \<times> string) list)"
  using assms
proof (induction xs arbitrary: ys)
  case Nil
  then show ?case by simp
next
  case (Cons a xs)
  then obtain b ys' where ys: "ys = b # ys'" by (cases ys) auto
  with Cons.prems have e: "fst a @ CHR ''='' # snd a = fst b @ CHR ''='' # snd b"
    and na: "CHR ''='' \<notin> set (fst a)" and nb: "CHR ''='' \<notin> set (fst b)"
    by simp_all
  from split_at_first[OF na nb e] have ab: "a = b"
    by (simp add: prod_eq_iff)
  have "xs = ys'"
    using Cons.prems ys by (intro Cons.IH) simp_all
  with ab ys show ?case by simp
qed

lemma param_string_alt:
  "param_string str kwargs =
     join_amp (map (\<lambda>kv. fst kv @ CHR ''='' # snd kv)
                (map (\<lambda>kv. (fst kv, str (the (snd kv)))) (sort_key fst (present kwargs))))"
  unfolding param_string_def present_def Let_def filter_sort map_map comp_def
  by (simp only: fst_conv snd_conv)

lemma sort_present_eq:
  assumes "distinct (map fst p1)" "distinct (map fst p2)" "set (present p1) = set (present p2)"
  shows "sort_key fst (present p1) = sort_key fst (present p2)"
proof -
  have d1: "distinct (map fst (present p1))" and d2: "distinct (map fst (present p2))"
    using assms(1,2) by (simp_all add: present_def distinct_map_filter)
  then have "distinct (present p1)" "distinct (present p2)"
    by (auto simp: distinct_map)
  with assms(3) have "mset (present p1) = mset (present p2)"
    by (simp add: set_eq_iff_mset_eq_distinct)
  then have "mset (present p1) = mset (sort_key fst (present p2))"
    by simp
  moreover have "inj_on fst (set (present p1))"
    using d1 by (simp add: distinct_map)
  moreover have "sorted (map fst (sort_key fst (present p2)))"
    by simp
  ultimately show ?thesis
    by (rule sort_key_inj_key_eq)
qed

lemma set_sort_present: "set (sort_key fst (present p)) = set (present p)"
  by simp

text \<open>
  Claim C4. Two parameter dicts (names distinct within each) with the same set of items
  whose value is not \<^verbatim>\<open>None\<close> get the same key under every namespace, whatever the
  order of the items and whatever items with value \<^verbatim>\<open>None\<close> there are. The key is the
  namespace, a colon, and the digest of the items sorted by name, without those whose
  value is \<^verbatim>\<open>None\<close>, written \<^verbatim>\<open>name=value\<close> and joined with \<^verbatim>\<open>&\<close>; when the digest
  has a fixed width \<open>w\<close> (32 hex digits for MD5), the key is \<open>w + 1\<close> longer than the
  namespace.
\<close>

theorem cache_key_deterministic:
  assumes "distinct (map fst p1)" and "distinct (map fst p2)"
    and "set (present p1) = set (present p2)"
  shows "generate_cache_key md5 str n p1 = generate_cache_key md5 str n p2
    \<and> generate_cache_key md5 str n p1 =
        n @ '':'' @ md5 (join_amp (map (\<lambda>kv. fst kv @ ''='' @ str (the (snd kv)))
                                     (sort_key fst (present p1))))
    \<and> ((\<forall>s. length (md5 s) = w) \<longrightarrow>
          length (generate_cache_key md5 str n p1) = length n + 1 + w)"
proof -
  have "sort_key fst (present p1) = sort_key fst (present p2)"
    using assms by (rule sort_present_eq)
  then have "param_string str p1 = param_string str p2"
    by (simp only: param_string_alt)
  moreover have "param_string str p1 =
      join_amp (map (\<lambda>kv. fst kv @ ''='' @ str (the (snd kv))) (sort_key fst (present p1)))"
    by (simp add: param_string_alt comp_def)
  ultimately show ?thesis
    by (simp add: generate_cache_key_def)
qed

theorem cache_key_deterministic_witness:
  "generate_cache_key padded_digest id ''summary''
      [(''start_date'', Some ''2020''), (''parent_asin'', Some ''B01''), (''cities'', None)]
   = generate_cache_key padded_digest id ''summary''
      [(''parent_asin'', Some ''B01''), (''start_date'', Some ''2020'')]
   \<and> length (generate_cache_key padded_digest id ''summary''
      [(''start_date'', Some ''2020''), (''parent_asin'', Some ''B01''), (''cities'', None)]) = 40"
proof -
  let ?p1 = "[(''start_date'', Some ''2020''), (''parent_asin'', Some ''B01''), (''cities'', None)]"
  let ?p2 = "[(''parent_asin'', Some ''B01''), (''start_date'', Some ''2020'')]"
  have d1: "distinct (map fst ?p1)" and d2: "distinct (map fst ?p2)"
    by simp_all
  have same: "set (present ?p1) = set (present ?p2)"
    by (auto simp: present_def)
  have width: "\<forall>s. length (padded_digest s) = 32"
    by (simp add: padded_digest_def min_def)
  note inst = cache_key_deterministic[OF d1 d2 same, of padded_digest id "''summary''" 32]
  from inst have e: "generate_cache_key padded_digest id ''summary'' ?p1
                       = generate_cache_key padded_digest id ''summary'' ?p2"
    by (rule conjunct1)
  from inst width
  have "length (generate_cache_key padded_digest id ''summary'' ?p1) = length ''summary'' + 1 + 32"
    by blast
  then have l: "length (generate_cache_key padded_digest id ''summary'' ?p1) = 40"
    by simp
  from e l show ?thesis
    by (rule conjI)
qed

lemma cache_key_example: "generate_cache_key padded_digest id ''summary''
      [(''start_date'', Some ''2020''), (''parent_asin'', Some ''B01''), (''cities'', None)]
   = ''summary:parent_asin=B01&start_date=20200''"
  by code_simp

text \<open>
  Claim C5, as the code has it. When no name contains \<^verbatim>\<open>&\<close> or \<^verbatim>\<open>=\<close> and no rendered
  value contains \<^verbatim>\<open>&\<close>, two dicts whose items with a value differ in a name or in a
  rendered value get different keys, unless the digests of their two parameter strings
  collide.
\<close>

theorem cache_keys_differ:
  assumes clean1: "\<forall>kv\<in>set (present p1). CHR ''&'' \<notin> set (fst kv) \<and> CHR ''='' \<notin> set (fst kv)
                      \<and> CHR ''&'' \<notin> set (str (the (snd kv)))"
    and clean2: "\<forall>kv\<in>set (present p2). CHR ''&'' \<notin> set (fst kv) \<and> CHR ''='' \<notin> set (fst kv)
                      \<and> CHR ''&'' \<notin> set (str (the (snd kv)))"
    and differ: "(\<lambda>kv. (fst kv, str (the (snd kv)))) ` set (present p1)
                   \<noteq> (\<lambda>kv. (fst kv, str (the (snd kv)))) ` set (present p2)"
    and no_collision: "param_string str p1 \<noteq> param_string str p2 \<longrightarrow>
                         md5 (param_string str p1) \<noteq> md5 (param_string str p2)"
  shows "generate_cache_key md5 str n p1 \<noteq> generate_cache_key md5 str n p2"
proof
  assume "generate_cache_key md5 str n p1 = generate_cache_key md5 str n p2"
  then have "md5 (param_string str p1) = md5 (param_string str p2)"
    by (simp add: generate_cache_key_def)
  with no_collision have same: "param_string str p1 = param_string str p2"
    by blast
  let ?r = "\<lambda>kv :: string \<times> 'a option. (fst kv, str (the (snd kv)))"
  let ?q1 = "map ?r (sort_key fst (present p1))"
  let ?q2 = "map ?r (sort_key fst (present p2))"
  let ?f = "\<lambda>kv :: string \<times> string. fst kv @ CHR ''='' # snd kv"
  have j: "join_amp (map ?f ?q1) = join_amp (map ?f ?q2)"
    using same by (simp only: param_string_alt)
  have a1: "\<forall>x\<in>set (map ?f ?q1). CHR ''&'' \<notin> set x \<and> x \<noteq> []"
    using clean1 by auto
  have a2: "\<forall>x\<in>set (map ?f ?q2). CHR ''&'' \<notin> set x \<and> x \<noteq> []"
    using clean2 by auto
  have m: "map ?f ?q1 = map ?f ?q2"
    using a1 a2 j by (rule join_amp_inj)
  have b1: "\<forall>kv\<in>set ?q1. CHR ''='' \<notin> set (fst kv)"
    using clean1 by auto
  have b2: "\<forall>kv\<in>set ?q2. CHR ''='' \<notin> set (fst kv)"
    using clean2 by auto
  have "?q1 = ?q2"
    using b1 b2 m by (rule map_render_inj)
  then have "set ?q1 = set ?q2"
    by (rule arg_cong)
  then have "?r ` set (present p1) = ?r ` set (present p2)"
    by (simp only: set_map set_sort_present)
  with differ show False
    by blast
qed

theorem cache_keys_differ_witness:
  "generate_cache_key padded_digest id ''summary'' [(''parent_asin'', Some ''B01'')]
     \<noteq> generate_cache_key padded_digest id ''summary'' [(''parent_asin'', Some ''B02'')]"
proof -
  let ?p1 = "[(''parent_asin'', Some ''B01'')]"
  let ?p2 = "[(''parent_asin'', Some ''B02'')]"
  have c1: "\<forall>kv\<in>set (present ?p1). CHR ''&'' \<notin> set (fst kv) \<and> CHR ''='' \<notin> set (fst kv)
                      \<and> CHR ''&'' \<notin> set (id (the (snd kv)))"
    by (simp add: present_def)
  have c2: "\<forall>kv\<in>set (present ?p2). CHR ''&'' \<notin> set (fst kv) \<and> CHR ''='' \<notin> set (fst kv)
                      \<and> CHR ''&'' \<notin> set (id (the (snd kv)))"
    by (simp add: present_def)
  have differ: "(\<lambda>kv. (fst kv, id (the (snd kv)))) ` set (present ?p1)
                   \<noteq> (\<lambda>kv. (fst kv, id (the (snd kv)))) ` set (present ?p2)"
    by (simp add: present_def)
  have no_collision: "param_string id ?p1 \<noteq> param_string id ?p2 \<longrightarrow>
                         padded_digest (param_string id ?p1) \<noteq> padded_digest (param_string id ?p2)"
    by (simp add: param_string_def padded_digest_def)
  from c1 c2 differ no_collision show ?thesis
    by (rule cache_keys_differ)
qed

text \<open>
  Claim C5 as stated fails without a digest collision: a value that contains the
  delimiter gives the same parameter string as two separate items, so the digest is
  applied to equal inputs and the keys are equal.
\<close>

theorem cache_key_collision_by_delimiter:
  "set (present [(''cities'', Some ''L&end_date=2020''), (''end_date'', None)])
     \<noteq> set (present [(''cities'', Some ''L''), (''end_date'', Some ''2020'')])
   \<and> param_string id [(''cities'', Some ''L&end_date=2020''), (''end_date'', None)]
     = param_string id [(''cities'', Some ''L''), (''end_date'', Some ''2020'')]
   \<and> generate_cache_key padded_digest id ''summary''
        [(''cities'', Some ''L&end_date=2020''), (''end_date'', None)]
     = generate_cache_key padded_digest id ''summary''
        [(''cities'', Some ''L''), (''end_date'', Some ''2020'')]"
  by code_simp

subsection \<open>Invalidation\<close>







text \<open>On the healthy store both entries of \<^verbatim>\<open>B01\<close> go and the entry of \<^verbatim>\<open>B02\<close> stays.\<close>

lemma invalidate_healthy_store:
  "map_of (fst (CacheManager_invalidate_product_cache ''2024-01-01T00:00:00'' ''B01'' healthy_store))
      ''deleted_keys'' = Some (I 2)
   \<and> map_option entries (redis_client (redis (snd (CacheManager_invalidate_product_cache
          ''2024-01-01T00:00:00'' ''B01'' healthy_store))))
      = Some [(''summary:B02'', 1800, ''3'')]"
  by code_simp


subsection \<open>Cache warming\<close>












text \<open>
  A task that ends in a \<^verbatim>\<open>CancelledError\<close> is counted as successful: its result is not
  an instance of \<^verbatim>\<open>Exception\<close>.
\<close>

lemma warm_counts_cancelled_as_successful:
  "fst (warm_cache_for_product string_json padded_digest one_cancelled ''B01'' None with_redis)
     = Inr [(''product'', S ''B01''), (''successful'', I 6), (''failed'', I 0), (''total'', I 6)]"
  by code_simp

end
